theory Spec2Isabelle
  imports
    Main
    "HOL-Library.Mapping"
    "HOL-Library.AList_Mapping"
    "HOL-Library.Char_ord"
    "HOL-Library.List_Lexorder"
    "HOL-Library.Word"
begin

unbundle bit_operations_syntax

section \<open>The mock repository of git-appraise (repository/mock\_repo.go)\<close>

text \<open>
  Go strings are byte sequences: \<^typ>\<open>string\<close>. A Go map is a finite mapping; reading a
  missing key yields the zero value of the value type, which \<open>Mapping.lookup_default\<close>
  writes out. A Go function returning \<open>(v, error)\<close> returns a pair whose second
  component is \<open>None\<close> for \<open>nil\<close>.
\<close>

subsection \<open>Errors and panics\<close>

datatype error =
    RefDoesNotExist string     \<comment> \<open>\<open>fmt.Errorf("The ref %q does not exist", ref)\<close>\<close>
  | NotAKnownCommit string     \<comment> \<open>\<open>fmt.Errorf("The given hash %q is not a known commit", hash)\<close>\<close>

datatype panic =
    AssignmentToEntryInNilMap  \<comment> \<open>the runtime panic of a write into a nil map\<close>

subsection \<open>Constants used for testing\<close>

definition TestTargetRef :: string where
  "TestTargetRef = ''refs/heads/master''"

definition TestReviewRef :: string where
  "TestReviewRef = ''refs/heads/ojarjur/mychange''"

definition TestRequestsRef :: string where
  "TestRequestsRef = ''refs/notes/devtools/reviews''"

definition TestCommentsRef :: string where
  "TestCommentsRef = ''refs/notes/devtools/discuss''"

definition TestCommitA :: string where "TestCommitA = ''A''"
definition TestCommitB :: string where "TestCommitB = ''B''"
definition TestCommitC :: string where "TestCommitC = ''C''"
definition TestCommitD :: string where "TestCommitD = ''D''"
definition TestCommitE :: string where "TestCommitE = ''E''"
definition TestCommitF :: string where "TestCommitF = ''F''"
definition TestCommitG :: string where "TestCommitG = ''G''"
definition TestCommitH :: string where "TestCommitH = ''H''"
definition TestCommitI :: string where "TestCommitI = ''I''"
definition TestCommitJ :: string where "TestCommitJ = ''J''"

definition TestRequestB :: string where
  \<open>TestRequestB = ''{"timestamp": "0000000001", "reviewRef": "refs/heads/ojarjur/mychange", "targetRef": "refs/heads/master", "requester": "ojarjur", "reviewers": ["ojarjur"], "description": "B"}''\<close>

definition TestRequestD :: string where
  \<open>TestRequestD = ''{"timestamp": "0000000002", "reviewRef": "refs/heads/ojarjur/mychange", "targetRef": "refs/heads/master", "requester": "ojarjur", "reviewers": ["ojarjur"], "description": "D"}''\<close>

definition TestRequestG :: string where
  \<open>TestRequestG =
     ''{"timestamp": "0000000004", "reviewRef": "refs/heads/ojarjur/mychange", "targetRef": "refs/heads/master", "requester": "ojarjur", "reviewers": ["ojarjur"], "description": "G"}''
     @ ''\<newline>\<newline>'' @
     ''{"timestamp": "0000000005", "reviewRef": "refs/heads/ojarjur/mychange", "targetRef": "refs/heads/master", "requester": "ojarjur", "reviewers": ["ojarjur"], "description": "Updated description of G"}''
     @ ''\<newline>\<newline>'' @
     ''{"timestamp": "0000000005", "reviewRef": "refs/heads/ojarjur/mychange", "targetRef": "refs/heads/master", "requester": "ojarjur", "reviewers": ["ojarjur"], "description": "Final description of G"}''\<close>

definition TestDiscussB :: string where
  \<open>TestDiscussB = ''{"timestamp": "0000000001", "author": "ojarjur", "location": {"commit": "B"}, "resolved": true}''\<close>

definition TestDiscussD :: string where
  \<open>TestDiscussD = ''{"timestamp": "0000000003", "author": "ojarjur", "location": {"commit": "E"}, "resolved": true}''\<close>

subsection \<open>Data\<close>

record mockCommit =
  Message :: string
  Time :: string
  Parents :: "string list"

text \<open>
  The inner maps of \<open>Notes\<close> are map values of their own, and a map value can be
  \<open>nil\<close>: \<open>None\<close> is the nil map, \<open>Some m\<close> an allocated one. Reading treats both
  alike, writing does not. For the three maps held by the struct itself only reads occur, where
  a nil map and an empty map behave alike.
\<close>

record mockRepoForTest =
  Head :: string
  Refs :: "(string, string) mapping"
  Commits :: "(string, mockCommit) mapping"
  Notes :: "(string, (string, string) mapping option) mapping"

type_synonym Note = string

text \<open>The zero value of \<open>mockCommit\<close>, which a read of a missing key of \<open>Commits\<close> yields.\<close>

definition zeroCommit :: mockCommit where
  "zeroCommit = \<lparr>Message = [], Time = [], Parents = []\<rparr>"

text \<open>\<open>r.Notes[ref]\<close>: the inner map under \<open>ref\<close>, nil when the key is missing.\<close>

definition notesOf :: "mockRepoForTest \<Rightarrow> string \<Rightarrow> (string, string) mapping option" where
  "notesOf r ref = Mapping.lookup_default None (Notes r) ref"

text \<open>\<open>r.Notes[ref][revision]\<close>: a read of a nil map yields the zero value too.\<close>

definition notesText :: "mockRepoForTest \<Rightarrow> string \<Rightarrow> string \<Rightarrow> string" where
  "notesText r ref revision =
     (case notesOf r ref of
        None \<Rightarrow> []
      | Some m \<Rightarrow> Mapping.lookup_default [] m revision)"

subsection \<open>NewMockRepoForTest\<close>

definition NewMockRepoForTest :: mockRepoForTest where
  "NewMockRepoForTest =
     (let commitA = \<lparr>Message = ''First commit'', Time = ''0'', Parents = []\<rparr>;
          commitB = \<lparr>Message = ''Second commit'', Time = ''1'', Parents = [TestCommitA]\<rparr>;
          commitC = \<lparr>Message = ''No, I'm the second commit'', Time = ''1'',
                     Parents = [TestCommitA]\<rparr>;
          commitD = \<lparr>Message = ''Fourth commit'', Time = ''2'',
                     Parents = [TestCommitB, TestCommitC]\<rparr>;
          commitE = \<lparr>Message = ''Fifth commit'', Time = ''3'', Parents = [TestCommitD]\<rparr>;
          commitF = \<lparr>Message = ''Sixth commit'', Time = ''4'', Parents = [TestCommitE]\<rparr>;
          commitG = \<lparr>Message = ''No, I'm the sixth commit'', Time = ''4'',
                     Parents = [TestCommitE]\<rparr>;
          commitH = \<lparr>Message = ''Seventh commit'', Time = ''5'',
                     Parents = [TestCommitG, TestCommitF]\<rparr>;
          commitI = \<lparr>Message = ''Eighth commit'', Time = ''6'', Parents = [TestCommitH]\<rparr>;
          commitJ = \<lparr>Message = ''No, I'm the eighth commit'', Time = ''6'',
                     Parents = [TestCommitF]\<rparr>
      in \<lparr>Head = TestTargetRef,
          Refs = Mapping.of_alist
            [(TestTargetRef, TestCommitJ),
             (TestReviewRef, TestCommitI)],
          Commits = Mapping.of_alist
            [(TestCommitA, commitA),
             (TestCommitB, commitB),
             (TestCommitC, commitC),
             (TestCommitD, commitD),
             (TestCommitE, commitE),
             (TestCommitF, commitF),
             (TestCommitG, commitG),
             (TestCommitH, commitH),
             (TestCommitI, commitI),
             (TestCommitJ, commitJ)],
          Notes = Mapping.of_alist
            [(TestRequestsRef, Some (Mapping.of_alist
                [(TestCommitB, TestRequestB),
                 (TestCommitD, TestRequestD),
                 (TestCommitG, TestRequestG)])),
             (TestCommentsRef, Some (Mapping.of_alist
                [(TestCommitB, TestDiscussB),
                 (TestCommitD, TestDiscussD)]))]\<rparr>)"

subsection \<open>Value receivers\<close>

text \<open>
  Every method of \<open>mockRepoForTest\<close> has a value receiver: it runs on a copy of the
  caller's struct. What the method assigns to a field of its copy is lost when it returns;
  what it writes into a map is written into the map the caller's struct refers to as well,
  a map value being a reference. No method assigns to a map field itself. So after a call the
  caller holds its own \<open>Head\<close> and the maps as the method left them.
\<close>

definition afterCall :: "mockRepoForTest \<Rightarrow> mockRepoForTest \<Rightarrow> mockRepoForTest" where
  "afterCall caller copy =
     caller\<lparr>Refs := Refs copy, Commits := Commits copy, Notes := Notes copy\<rparr>"

subsection \<open>Ref resolution\<close>

definition resolveLocalRef :: "mockRepoForTest \<Rightarrow> string \<Rightarrow> string \<times> error option" where
  "resolveLocalRef r ref =
     (case Mapping.lookup (Refs r) ref of
        Some commit \<Rightarrow> (commit, None)
      | None \<Rightarrow>
          (case Mapping.lookup (Commits r) ref of
             Some _ \<Rightarrow> (ref, None)
           | None \<Rightarrow> ([], Some (RefDoesNotExist ref))))"

definition VerifyCommit :: "mockRepoForTest \<Rightarrow> string \<Rightarrow> error option" where
  "VerifyCommit r hash =
     (case Mapping.lookup (Commits r) hash of
        None \<Rightarrow> Some (NotAKnownCommit hash)
      | Some _ \<Rightarrow> None)"

definition VerifyGitRef :: "mockRepoForTest \<Rightarrow> string \<Rightarrow> error option" where
  "VerifyGitRef r ref = (case resolveLocalRef r ref of (_, err) \<Rightarrow> err)"

definition GetHeadRef :: "mockRepoForTest \<Rightarrow> string \<times> error option" where
  "GetHeadRef r = (Head r, None)"

definition GetCommitHash :: "mockRepoForTest \<Rightarrow> string \<Rightarrow> string \<times> error option" where
  "GetCommitHash r ref =
     (case VerifyGitRef r ref of
        Some err \<Rightarrow> ([], Some err)
      | None \<Rightarrow> (Mapping.lookup_default [] (Refs r) ref, None))"

text \<open>
  \<open>strings.Replace(s, old, new, 1)\<close> of the Go library: the leftmost occurrence of
  \<open>old\<close> in \<open>s\<close> is replaced by \<open>new\<close>, and \<open>s\<close> is returned as it is when
  \<open>old\<close> does not occur.
\<close>

fun strings_Replace1 :: "string \<Rightarrow> string \<Rightarrow> string \<Rightarrow> string" where
  "strings_Replace1 [] old new = (if old = [] then new else [])"
| "strings_Replace1 (c # s) old new =
     (if take (length old) (c # s) = old then new @ drop (length old) (c # s)
      else c # strings_Replace1 s old new)"

definition ResolveRefCommit :: "mockRepoForTest \<Rightarrow> string \<Rightarrow> string \<times> error option" where
  "ResolveRefCommit r ref =
     (case resolveLocalRef r ref of
        (commit, None) \<Rightarrow> (commit, None)
      | (_, Some _) \<Rightarrow>
          resolveLocalRef r (strings_Replace1 ref ''refs/heads/'' ''refs/remotes/origin/''))"

definition getCommit :: "mockRepoForTest \<Rightarrow> string \<Rightarrow> mockCommit \<times> error option" where
  "getCommit r ref =
     (case resolveLocalRef r ref of
        (commit, err) \<Rightarrow> (Mapping.lookup_default zeroCommit (Commits r) commit, err))"

subsection \<open>Ancestry\<close>

text \<open>
  The inner loop of \<open>ancestors\<close> over one queue: it stops at the first commit that does
  not resolve, and otherwise appends the parents of each commit to \<open>nextQueue\<close> and to
  \<open>ancestors\<close>.
\<close>

fun ancestors_queue ::
  "mockRepoForTest \<Rightarrow> string list \<Rightarrow> string list \<Rightarrow> string list
     \<Rightarrow> error + (string list \<times> string list)" where
  "ancestors_queue r [] nextQueue ancestors = Inr (nextQueue, ancestors)"
| "ancestors_queue r (c # queue) nextQueue ancestors =
     (case getCommit r c of
        (commit, Some err) \<Rightarrow> Inl err
      | (commit, None) \<Rightarrow>
          ancestors_queue r queue (nextQueue @ Parents commit) (ancestors @ Parents commit))"

text \<open>
  The outer loop \<open>for queue != nil\<close>. \<open>nextQueue\<close> starts as the nil slice and
  \<open>append\<close> leaves it nil exactly when nothing is appended, so the queue is nil exactly
  when it is empty. The loop need not end (a commit that is its own ancestor keeps the queue
  non-empty for ever): \<open>None\<close> is the run that does not return.
\<close>

partial_function (option) ancestors_loop ::
  "mockRepoForTest \<Rightarrow> string list \<Rightarrow> string list \<Rightarrow> (string list \<times> error option) option" where
  "ancestors_loop r queue ancestors =
     (if queue = [] then Some (ancestors, None)
      else (case ancestors_queue r queue [] ancestors of
              Inl err \<Rightarrow> Some ([], Some err)
            | Inr (nextQueue, ancestors') \<Rightarrow> ancestors_loop r nextQueue ancestors'))"

definition ancestors :: "mockRepoForTest \<Rightarrow> string \<Rightarrow> (string list \<times> error option) option" where
  "ancestors r commit = ancestors_loop r [commit] []"

text \<open>
  The loop of \<open>IsAncestor\<close> over the parents of the descendant, with the recursive call
  as a parameter: the first parent whose call returns \<open>(true, nil)\<close> ends it; an error of
  a call is dropped and the loop goes on.
\<close>

fun IsAncestor_parents ::
  "(string \<Rightarrow> (bool \<times> error option) option) \<Rightarrow> string list
     \<Rightarrow> (bool \<times> error option) option" where
  "IsAncestor_parents call [] = Some (False, None)"
| "IsAncestor_parents call (parent # parents) =
     Option.bind (call parent) (\<lambda>(t, e).
       if e = None \<and> t then Some (True, None) else IsAncestor_parents call parents)"

lemma IsAncestor_parents_mono [partial_function_mono]:
  assumes "\<And>p. mono_option (\<lambda>f. F f p)"
  shows "mono_option (\<lambda>f. IsAncestor_parents (F f) ps)"
  by (induction ps) (auto intro!: partial_function_mono assms simp del: split_paired_All)

text \<open>
  \<open>IsAncestor\<close> recurses without a bound; on a history with a cycle the recursion does
  not end, which is \<open>None\<close>.
\<close>

partial_function (option) IsAncestor ::
  "mockRepoForTest \<Rightarrow> string \<Rightarrow> string \<Rightarrow> (bool \<times> error option) option" where
  "IsAncestor r ancestor descendant =
     (if ancestor = descendant then Some (True, None)
      else (case getCommit r descendant of
              (descendantCommit, Some err) \<Rightarrow> Some (False, Some err)
            | (descendantCommit, None) \<Rightarrow>
                IsAncestor_parents (\<lambda>parent. IsAncestor r ancestor parent)
                  (Parents descendantCommit)))"

fun MergeBase_scan ::
  "mockRepoForTest \<Rightarrow> string \<Rightarrow> string list \<Rightarrow> (string \<times> error option) option" where
  "MergeBase_scan r b [] = Some ([], None)"
| "MergeBase_scan r b (ancestor # rest) =
     Option.bind (IsAncestor r ancestor b) (\<lambda>(t, e).
       if e = None \<and> t then Some (ancestor, None) else MergeBase_scan r b rest)"

definition MergeBase ::
  "mockRepoForTest \<Rightarrow> string \<Rightarrow> string \<Rightarrow> (string \<times> error option) option" where
  "MergeBase r a b =
     Option.bind (ancestors r a) (\<lambda>(ancestors, err).
       case err of
         Some e \<Rightarrow> Some ([], Some e)
       | None \<Rightarrow> MergeBase_scan r b ancestors)"

subsection \<open>Checkout and notes\<close>

text \<open>The body of \<open>SwitchToRef\<close> on its copy of the receiver, and the call as the caller sees it.\<close>

definition SwitchToRef_body :: "mockRepoForTest \<Rightarrow> string \<Rightarrow> mockRepoForTest \<times> error option" where
  "SwitchToRef_body r ref = (r\<lparr>Head := ref\<rparr>, None)"

definition SwitchToRef :: "mockRepoForTest \<Rightarrow> string \<Rightarrow> mockRepoForTest \<times> error option" where
  "SwitchToRef r ref =
     (case SwitchToRef_body r ref of (copy, err) \<Rightarrow> (afterCall r copy, err))"

text \<open>
  \<open>AppendNote\<close> reads \<open>r.Notes[ref][revision]\<close>, which a nil inner map allows, and then
  assigns to \<open>r.Notes[ref][revision]\<close>, which panics when the inner map is nil. The inner
  map is updated in place, so the outer map holds the updated inner map afterwards.
\<close>

definition AppendNote_body ::
  "mockRepoForTest \<Rightarrow> string \<Rightarrow> string \<Rightarrow> Note \<Rightarrow> panic + (mockRepoForTest \<times> error option)" where
  "AppendNote_body r ref revision note =
     (let existingNotes = notesText r ref revision;
          newNotes = existingNotes @ ''\<newline>'' @ note
      in case notesOf r ref of
           None \<Rightarrow> Inl AssignmentToEntryInNilMap
         | Some m \<Rightarrow>
             Inr (r\<lparr>Notes := Mapping.update ref (Some (Mapping.update revision newNotes m))
                               (Notes r)\<rparr>, None))"

definition AppendNote ::
  "mockRepoForTest \<Rightarrow> string \<Rightarrow> string \<Rightarrow> Note \<Rightarrow> panic + (mockRepoForTest \<times> error option)" where
  "AppendNote r ref revision note =
     (case AppendNote_body r ref revision note of
        Inl p \<Rightarrow> Inl p
      | Inr (copy, err) \<Rightarrow> Inr (afterCall r copy, err))"

subsection \<open>The repository state hash\<close>

text \<open>
  \<open>GetRepoStateHash\<close> passes the repository to \<open>json.Marshal\<close>, the bytes to
  \<open>sha1.Sum\<close> and the digest to \<open>fmt.Sprintf("%x", _)\<close>. The three belong to the Go
  library; they are written out here for the values \<open>GetRepoStateHash\<close> gives them, after
  the documentation of \<open>encoding/json\<close> and after FIPS 180-4.
\<close>

definition hexDigit :: "nat \<Rightarrow> char" where
  "hexDigit n = ''0123456789abcdef'' ! n"














text \<open>SHA-1, on 32-bit words as integers below \<open>2 ^ 32\<close> with the wrap-around written out.\<close>

definition add32 :: "int \<Rightarrow> int \<Rightarrow> int" where
  "add32 a b = (a + b) mod 4294967296"

definition not32 :: "int \<Rightarrow> int" where
  "not32 a = 4294967295 - a"

definition rotl :: "nat \<Rightarrow> int \<Rightarrow> int" where
  "rotl n w = (w * 2 ^ n) mod 4294967296 + w div 2 ^ (32 - n)"

definition be64 :: "int \<Rightarrow> int list" where
  "be64 n = map (\<lambda>i. (n div 256 ^ i) mod 256) [7, 6, 5, 4, 3, 2, 1, 0]"

definition be32 :: "int \<Rightarrow> int list" where
  "be32 n = map (\<lambda>i. (n div 256 ^ i) mod 256) [3, 2, 1, 0]"

definition sha1_pad :: "int list \<Rightarrow> int list" where
  "sha1_pad bs =
     bs @ [128] @ replicate ((119 - length bs mod 64) mod 64) 0 @ be64 (8 * int (length bs))"

fun be_words :: "int list \<Rightarrow> int list" where
  "be_words (a # b # c # d # bs) = (((a * 256 + b) * 256 + c) * 256 + d) # be_words bs"
| "be_words _ = []"

fun blocks :: "int list \<Rightarrow> int list list" where
  "blocks [] = []"
| "blocks (x # xs) = take 64 (x # xs) # blocks (drop 64 (x # xs))"

text \<open>The message schedule, over a window of the last sixteen words.\<close>

fun schedule :: "nat \<Rightarrow> int list \<Rightarrow> int list" where
  "schedule 0 win = []"
| "schedule (Suc n) win =
     (let x = rotl 1 (win ! 13 XOR win ! 8 XOR win ! 2 XOR win ! 0)
      in x # schedule n (tl win @ [x]))"

type_synonym sha1_state = "int \<times> int \<times> int \<times> int \<times> int"

definition Ch :: "int \<Rightarrow> int \<Rightarrow> int \<Rightarrow> int" where
  "Ch b c d = (b AND c) OR (not32 b AND d)"

definition Parity :: "int \<Rightarrow> int \<Rightarrow> int \<Rightarrow> int" where
  "Parity b c d = b XOR c XOR d"

definition Maj :: "int \<Rightarrow> int \<Rightarrow> int \<Rightarrow> int" where
  "Maj b c d = (b AND c) OR (b AND d) OR (c AND d)"

definition sha1_round ::
  "(int \<Rightarrow> int \<Rightarrow> int \<Rightarrow> int) \<Rightarrow> int \<Rightarrow> sha1_state \<Rightarrow> int \<Rightarrow> sha1_state" where
  "sha1_round f k s w =
     (case s of (a, b, c, d, e) \<Rightarrow>
        (add32 (add32 (add32 (add32 (rotl 5 a) (f b c d)) e) k) w, a, rotl 30 b, c, d))"

definition sha1_block :: "sha1_state \<Rightarrow> int list \<Rightarrow> sha1_state" where
  "sha1_block h block =
     (let w0 = be_words block;
          w = w0 @ schedule 64 w0;
          s1 = foldl (sha1_round Ch 0x5A827999) h (take 20 w);
          s2 = foldl (sha1_round Parity 0x6ED9EBA1) s1 (take 20 (drop 20 w));
          s3 = foldl (sha1_round Maj 0x8F1BBCDC) s2 (take 20 (drop 40 w));
          s4 = foldl (sha1_round Parity 0xCA62C1D6) s3 (drop 60 w)
      in case s4 of (a, b, c, d, e) \<Rightarrow>
         case h of (h0, h1, h2, h3, h4) \<Rightarrow>
           (add32 h0 a, add32 h1 b, add32 h2 c, add32 h3 d, add32 h4 e))"

definition sha1_init :: sha1_state where
  "sha1_init = (0x67452301, 0xEFCDAB89, 0x98BADCFE, 0x10325476, 0xC3D2E1F0)"

text \<open>\<open>sha1.Sum\<close>: the twenty bytes of the digest.\<close>

definition sha1_Sum :: "string \<Rightarrow> int list" where
  "sha1_Sum s =
     (case foldl sha1_block sha1_init (blocks (sha1_pad (map of_char s))) of
        (h0, h1, h2, h3, h4) \<Rightarrow> be32 h0 @ be32 h1 @ be32 h2 @ be32 h3 @ be32 h4)"

text \<open>\<open>fmt.Sprintf("%x", _)\<close> of a byte array: two lower-case hexadecimal digits a byte.\<close>

definition fmt_x :: "int list \<Rightarrow> string" where
  "fmt_x bytes = concat (map (\<lambda>b. [hexDigit (nat (b div 16)), hexDigit (nat (b mod 16))]) bytes)"


subsection \<open>The parent relation\<close>

text \<open>
  The notions the ancestry proofs are stated with: the parents of an identifier as
  \<open>getCommit\<close> reports them, whether \<open>getCommit\<close> resolves it, and the edges from each
  identifier that resolves to its parents.
\<close>

definition parentsOf :: "mockRepoForTest \<Rightarrow> string \<Rightarrow> string list" where
  "parentsOf r c = Parents (fst (getCommit r c))"

definition resolves :: "mockRepoForTest \<Rightarrow> string \<Rightarrow> bool" where
  "resolves r c = (snd (getCommit r c) = None)"

definition parentEdges :: "mockRepoForTest \<Rightarrow> (string \<times> string) set" where
  "parentEdges r = {(c, p). resolves r c \<and> p \<in> set (parentsOf r c)}"

subsection \<open>Evaluation\<close>

text \<open>The recursion equations of the two unbounded loops, as code equations.\<close>

declare IsAncestor.simps [code]
declare ancestors_loop.simps [code]

lemmas test_defs =
  TestTargetRef_def TestReviewRef_def TestRequestsRef_def TestCommentsRef_def
  TestCommitA_def TestCommitB_def TestCommitC_def TestCommitD_def TestCommitE_def
  TestCommitF_def TestCommitG_def TestCommitH_def TestCommitI_def TestCommitJ_def

section \<open>Properties\<close>

subsection \<open>Ancestry on the test history\<close>

text \<open>
  C2 (as amended). On the pre-populated mock repository \<open>IsAncestor("A", "J")\<close> returns
  true without error, and so does \<open>IsAncestor("C", "G")\<close>: \<open>C\<close> is the second parent of
  the merge commit \<open>D\<close>, \<open>D\<close> is the parent of \<open>E\<close>, and \<open>E\<close> is the parent of
  \<open>G\<close>.
\<close>

theorem IsAncestor_test_history:
  "IsAncestor NewMockRepoForTest TestCommitA TestCommitJ = Some (True, None)
   \<and> IsAncestor NewMockRepoForTest TestCommitC TestCommitG = Some (True, None)"
  by code_simp

text \<open>
  C2 as stated, that \<open>IsAncestor("C", "G")\<close> returns false, does not hold of the
  pre-populated repository.
\<close>

theorem IsAncestor_C_G_not_false:
  "\<not> (IsAncestor NewMockRepoForTest ''A'' ''J'' = Some (True, None)
      \<and> IsAncestor NewMockRepoForTest ''C'' ''G'' = Some (False, None))"
  by code_simp

subsection \<open>Reflexivity of IsAncestor\<close>

text \<open>
  C8. For every string \<open>x\<close>, whether or not it names a commit or a ref of the repository,
  \<open>IsAncestor(x, x)\<close> returns \<open>(true, nil)\<close>: the comparison of the two arguments comes
  before any lookup.
\<close>

theorem IsAncestor_reflexive_without_lookup:
  "IsAncestor r x x = Some (True, None)"
  by (subst IsAncestor.simps) simp

subsection \<open>GetCommitHash\<close>

text \<open>
  C9. When \<open>ref\<close> is a key of the commit store and not a key of the ref table,
  \<open>VerifyGitRef\<close> accepts it and \<open>GetCommitHash\<close> returns the empty string with a nil
  error, the result being read from the ref table.
\<close>

theorem GetCommitHash_of_commit_identifier:
  assumes "Mapping.lookup (Commits r) ref \<noteq> None"
    and "Mapping.lookup (Refs r) ref = None"
  shows "VerifyGitRef r ref = None \<and> GetCommitHash r ref = ([], None)"
  using assms
  by (auto simp add: GetCommitHash_def VerifyGitRef_def resolveLocalRef_def lookup_default_def)

theorem GetCommitHash_of_commit_identifier_witness:
  "Mapping.lookup (Commits NewMockRepoForTest) TestCommitA \<noteq> None
   \<and> Mapping.lookup (Refs NewMockRepoForTest) TestCommitA = None
   \<and> VerifyGitRef NewMockRepoForTest TestCommitA = None
   \<and> GetCommitHash NewMockRepoForTest TestCommitA = ([], None)"
proof -
  have c: "Mapping.lookup (Commits NewMockRepoForTest) TestCommitA \<noteq> None"
    by (simp add: NewMockRepoForTest_def test_defs lookup_of_alist)
  have n: "Mapping.lookup (Refs NewMockRepoForTest) TestCommitA = None"
    by (simp add: NewMockRepoForTest_def test_defs lookup_of_alist)
  from GetCommitHash_of_commit_identifier [OF c n] c n show ?thesis by simp
qed

subsection \<open>SwitchToRef\<close>

text \<open>
  C10. \<open>SwitchToRef(ref)\<close> returns nil and the caller's repository is the one it was:
  \<open>GetHeadRef\<close> on it returns the head of before the call. The assignment has set the
  head of the method's own copy only.
\<close>

theorem SwitchToRef_leaves_head:
  "snd (SwitchToRef r ref) = None
   \<and> fst (SwitchToRef r ref) = r
   \<and> GetHeadRef (fst (SwitchToRef r ref)) = GetHeadRef r
   \<and> Head (fst (SwitchToRef_body r ref)) = ref"
  by (simp add: SwitchToRef_def SwitchToRef_body_def afterCall_def)

subsection \<open>AppendNote\<close>

text \<open>
  C6, at a notes ref that has no entry in \<open>Notes\<close>: on the pre-populated repository,
  \<open>AppendNote("refs/notes/devtools/ci", "A", "x")\<close> does not return; it panics on the
  assignment into the nil inner map.
\<close>

theorem AppendNote_new_notes_ref_panics:
  "AppendNote NewMockRepoForTest ''refs/notes/devtools/ci'' TestCommitA ''x''
     = Inl AssignmentToEntryInNilMap"
  by code_simp

text \<open>
  Where the inner map under the notes ref is allocated, the call returns nil and the pair holds
  the prior payload, a line feed and the note.
\<close>

lemma AppendNote_allocated_notes_ref:
  assumes "notesOf r ref = Some m"
  shows "\<exists>r'. AppendNote r ref revision note = Inr (r', None)
           \<and> Head r' = Head r
           \<and> notesText r' ref revision = notesText r ref revision @ ''\<newline>'' @ note"
  using assms
  by (simp add: AppendNote_def AppendNote_body_def afterCall_def notesText_def notesOf_def
      lookup_default_def lookup_update)

subsection \<open>The ancestor enumeration and IsAncestor\<close>

text \<open>
  What a run of \<open>ancestors\<close> that returns a list says about the history: every identifier
  reached resolves, no identifier reached is its own proper ancestor, the list holds exactly the
  proper ancestors, and \<open>IsAncestor\<close> returns on every identifier reached, with the
  reflexive-transitive closure of the parent relation as its answer.
\<close>

lemma ancestors_queue_Inr:
  "ancestors_queue r queue nq acc = Inr (nq', acc') \<longleftrightarrow>
     (\<forall>c \<in> set queue. resolves r c)
     \<and> nq' = nq @ concat (map (parentsOf r) queue)
     \<and> acc' = acc @ concat (map (parentsOf r) queue)"
proof (induction queue arbitrary: nq acc)
  case Nil
  then show ?case by auto
next
  case (Cons c queue)
  obtain commit err where g: "getCommit r c = (commit, err)" by (cases "getCommit r c")
  show ?case
  proof (cases err)
    case None
    with g Cons show ?thesis by (simp add: resolves_def parentsOf_def)
  next
    case (Some e)
    with g show ?thesis by (simp add: resolves_def)
  qed
qed

lemma IsAncestor_parents_all:
  assumes "\<forall>p \<in> set ps. call p = Some (f p, None)"
  shows "IsAncestor_parents call ps = Some (\<exists>p \<in> set ps. f p, None)"
  using assms by (induction ps) auto

lemma IsAncestor_step:
  assumes "resolves r c"
    and "\<forall>p \<in> set (parentsOf r c). IsAncestor r x p = Some (f p, None)"
  shows "IsAncestor r x c = Some (x = c \<or> (\<exists>p \<in> set (parentsOf r c). f p), None)"
proof (cases "x = c")
  case True
  then show ?thesis by (subst IsAncestor.simps) simp
next
  case False
  obtain commit where g: "getCommit r c = (commit, None)"
    using assms(1) by (cases "getCommit r c") (simp add: resolves_def)
  then have p: "parentsOf r c = Parents commit" by (simp add: parentsOf_def)
  have "IsAncestor r x c = IsAncestor_parents (\<lambda>parent. IsAncestor r x parent) (Parents commit)"
    using False g by (subst IsAncestor.simps) simp
  also have "\<dots> = Some (\<exists>p \<in> set (Parents commit). f p, None)"
    using assms(2) p by (intro IsAncestor_parents_all) simp
  finally show ?thesis using False p by simp
qed

lemma parentEdges_image: "resolves r c \<Longrightarrow> (c, p) \<in> parentEdges r \<longleftrightarrow> p \<in> set (parentsOf r c)"
  by (simp add: parentEdges_def)

lemma ancestors_loop_sound:
  assumes "ancestors_loop r queue acc = Some y"
  shows "snd y = None \<longrightarrow>
     (\<exists>rest. fst y = acc @ concat (map (parentsOf r) queue) @ rest
        \<and> set (concat (map (parentsOf r) queue) @ rest) = {x. \<exists>c \<in> set queue. (c, x) \<in> (parentEdges r)\<^sup>+}
        \<and> (\<forall>c \<in> set queue. resolves r c \<and> (c, c) \<notin> (parentEdges r)\<^sup>+
              \<and> (\<forall>x. IsAncestor r x c = Some ((c, x) \<in> (parentEdges r)\<^sup>*, None))))"
  using assms
proof (induction rule: ancestors_loop.raw_induct [rotated 1, consumes 1])
  case (1 loop r queue acc y)
  let ?E = "parentEdges r"
  show ?case
  proof (cases "queue = []")
    case True
    with 1(2) show ?thesis by auto
  next
    case False
    show ?thesis
    proof (cases "ancestors_queue r queue [] acc")
      case (Inl err)
      with False 1(2) show ?thesis by auto
    next
      case (Inr pr)
      obtain nq acc' where pr: "pr = (nq, acc')" by (cases pr)
      with Inr have q: "ancestors_queue r queue [] acc = Inr (nq, acc')" by simp
      then have ok: "\<forall>c \<in> set queue. resolves r c"
        and nq: "nq = concat (map (parentsOf r) queue)"
        and acc': "acc' = acc @ nq"
        by (simp_all add: ancestors_queue_Inr)
      from False q 1(2) have rec: "loop r nq acc' = Some y" by simp
      show ?thesis
      proof
        assume noerr: "snd y = None"
        from 1(1) [OF rec] noerr obtain rest' where
          y: "fst y = acc' @ concat (map (parentsOf r) nq) @ rest'"
          and s: "set (concat (map (parentsOf r) nq) @ rest') = {x. \<exists>c \<in> set nq. (c, x) \<in> ?E\<^sup>+}"
          and ih: "\<forall>c \<in> set nq. resolves r c \<and> (c, c) \<notin> ?E\<^sup>+
              \<and> (\<forall>x. IsAncestor r x c = Some ((c, x) \<in> ?E\<^sup>*, None))"
          by blast
        let ?rest = "concat (map (parentsOf r) nq) @ rest'"
        have setnq: "set nq = {p. \<exists>c \<in> set queue. (c, p) \<in> ?E}"
          using ok by (auto simp add: nq parentEdges_def)
        have a: "fst y = acc @ concat (map (parentsOf r) queue) @ ?rest"
          using y acc' nq by simp
        have b: "set (concat (map (parentsOf r) queue) @ ?rest)
                   = {x. \<exists>c \<in> set queue. (c, x) \<in> ?E\<^sup>+}"
        proof -
          have "set (nq @ ?rest) = set nq \<union> {x. \<exists>c \<in> set nq. (c, x) \<in> ?E\<^sup>+}"
            using s by simp
          also have "\<dots> = {x. \<exists>c \<in> set queue. (c, x) \<in> ?E\<^sup>+}"
          proof (intro set_eqI iffI)
            fix x assume "x \<in> set nq \<union> {x. \<exists>c \<in> set nq. (c, x) \<in> ?E\<^sup>+}"
            then show "x \<in> {x. \<exists>c \<in> set queue. (c, x) \<in> ?E\<^sup>+}"
              unfolding setnq by (auto intro: trancl_into_trancl2)
          next
            fix x assume "x \<in> {x. \<exists>c \<in> set queue. (c, x) \<in> ?E\<^sup>+}"
            then obtain c where c: "c \<in> set queue" "(c, x) \<in> ?E\<^sup>+" by blast
            from c(2) obtain p where "(c, p) \<in> ?E" "(p, x) \<in> ?E\<^sup>*"
              by (meson tranclD)
            with c(1) show "x \<in> set nq \<union> {x. \<exists>c \<in> set nq. (c, x) \<in> ?E\<^sup>+}"
              unfolding setnq by (auto dest: rtranclD)
          qed
          finally show ?thesis using nq by simp
        qed
        have c: "\<forall>c \<in> set queue. resolves r c \<and> (c, c) \<notin> ?E\<^sup>+
              \<and> (\<forall>x. IsAncestor r x c = Some ((c, x) \<in> ?E\<^sup>*, None))"
        proof
          fix c assume cq: "c \<in> set queue"
          then have okc: "resolves r c" using ok by blast
          have sub: "set (parentsOf r c) \<subseteq> set nq"
            using cq by (auto simp add: nq)
          have acyc: "(c, c) \<notin> ?E\<^sup>+"
          proof
            assume "(c, c) \<in> ?E\<^sup>+"
            then obtain p where p: "(c, p) \<in> ?E" "(p, c) \<in> ?E\<^sup>*" by (meson tranclD)
            then have "(p, p) \<in> ?E\<^sup>+" by (meson rtrancl_into_trancl1)
            moreover have "p \<in> set nq" using p(1) cq unfolding setnq by blast
            ultimately show False using ih by blast
          qed
          have anc: "IsAncestor r x c = Some ((c, x) \<in> ?E\<^sup>*, None)" for x
          proof -
            have "\<forall>p \<in> set (parentsOf r c). IsAncestor r x p = Some ((p, x) \<in> ?E\<^sup>*, None)"
              using ih sub by blast
            from IsAncestor_step [OF okc this]
            have "IsAncestor r x c
                    = Some (x = c \<or> (\<exists>p \<in> set (parentsOf r c). (p, x) \<in> ?E\<^sup>*), None)" .
            moreover have "(x = c \<or> (\<exists>p \<in> set (parentsOf r c). (p, x) \<in> ?E\<^sup>*))
                             \<longleftrightarrow> (c, x) \<in> ?E\<^sup>*"
            proof
              assume "x = c \<or> (\<exists>p \<in> set (parentsOf r c). (p, x) \<in> ?E\<^sup>*)"
              then show "(c, x) \<in> ?E\<^sup>*"
                using okc by (auto simp add: parentEdges_image intro: converse_rtrancl_into_rtrancl)
            next
              assume "(c, x) \<in> ?E\<^sup>*"
              then show "x = c \<or> (\<exists>p \<in> set (parentsOf r c). (p, x) \<in> ?E\<^sup>*)"
                using okc by (auto simp add: parentEdges_image elim: converse_rtranclE)
            qed
            ultimately show ?thesis by simp
          qed
          from okc acyc anc show "resolves r c \<and> (c, c) \<notin> ?E\<^sup>+
              \<and> (\<forall>x. IsAncestor r x c = Some ((c, x) \<in> ?E\<^sup>*, None))" by blast
        qed
        from a b c show "\<exists>rest. fst y = acc @ concat (map (parentsOf r) queue) @ rest
          \<and> set (concat (map (parentsOf r) queue) @ rest) = {x. \<exists>c \<in> set queue. (c, x) \<in> ?E\<^sup>+}
          \<and> (\<forall>c \<in> set queue. resolves r c \<and> (c, c) \<notin> ?E\<^sup>+
              \<and> (\<forall>x. IsAncestor r x c = Some ((c, x) \<in> ?E\<^sup>*, None)))"
          by blast
      qed
    qed
  qed
qed

lemma ancestors_sound:
  assumes "ancestors r b = Some (xs, None)"
  shows "\<exists>rest. xs = parentsOf r b @ rest"
    and "set xs = {x. (b, x) \<in> (parentEdges r)\<^sup>+}"
    and "resolves r b"
    and "(b, b) \<notin> (parentEdges r)\<^sup>+"
    and "IsAncestor r x b = Some ((b, x) \<in> (parentEdges r)\<^sup>*, None)"
proof -
  from assms have "ancestors_loop r [b] [] = Some (xs, None)" by (simp add: ancestors_def)
  from ancestors_loop_sound [OF this] obtain rest where
    a: "xs = parentsOf r b @ rest"
    and b: "set (parentsOf r b @ rest) = {x. (b, x) \<in> (parentEdges r)\<^sup>+}"
    and c: "resolves r b \<and> (b, b) \<notin> (parentEdges r)\<^sup>+
              \<and> (\<forall>x. IsAncestor r x b = Some ((b, x) \<in> (parentEdges r)\<^sup>*, None))"
    by auto
  from a show "\<exists>rest. xs = parentsOf r b @ rest" by blast
  from a b show "set xs = {x. (b, x) \<in> (parentEdges r)\<^sup>+}" by simp
  from c show "resolves r b" "(b, b) \<notin> (parentEdges r)\<^sup>+"
    "IsAncestor r x b = Some ((b, x) \<in> (parentEdges r)\<^sup>*, None)" by blast+
qed

lemma MergeBase_scan_result:
  assumes "MergeBase_scan r b xs = Some (res, e)"
  shows "e = None \<and> (res = [] \<or> (res \<in> set xs \<and> IsAncestor r res b = Some (True, None)))"
  using assms
proof (induction xs)
  case Nil
  then show ?case by simp
next
  case (Cons x xs)
  then show ?case
    by (cases "IsAncestor r x b") (auto split: if_splits)
qed




subsection \<open>MergeBase\<close>

text \<open>
  C4. Whenever \<open>MergeBase(a, b)\<close> returns a non-empty result with no error, \<open>IsAncestor\<close>
  of the result and \<open>a\<close> and \<open>IsAncestor\<close> of the result and \<open>b\<close> both return true.
\<close>

theorem MergeBase_result_is_common_ancestor:
  assumes "MergeBase r a b = Some (res, None)"
    and "res \<noteq> []"
  shows "IsAncestor r res a = Some (True, None) \<and> IsAncestor r res b = Some (True, None)"
proof -
  from assms(1) obtain xs e where anc: "ancestors r a = Some (xs, e)"
    by (cases "ancestors r a") (auto simp add: MergeBase_def)
  with assms(1) have e: "e = None"
    by (cases e) (simp_all add: MergeBase_def)
  with anc assms(1) have scan: "MergeBase_scan r b xs = Some (res, None)"
    by (simp add: MergeBase_def)
  from MergeBase_scan_result [OF scan] assms(2)
  have mem: "res \<in> set xs" and b: "IsAncestor r res b = Some (True, None)" by simp_all
  note s = ancestors_sound [OF anc [unfolded e]]
  from mem s(2) have "(a, res) \<in> (parentEdges r)\<^sup>*" by auto
  with s(5) [of res] b show ?thesis by simp
qed

theorem MergeBase_result_is_common_ancestor_witness:
  "MergeBase NewMockRepoForTest TestCommitI TestCommitJ = Some (TestCommitF, None)
   \<and> TestCommitF \<noteq> []
   \<and> IsAncestor NewMockRepoForTest TestCommitF TestCommitI = Some (True, None)
   \<and> IsAncestor NewMockRepoForTest TestCommitF TestCommitJ = Some (True, None)"
proof -
  have h: "MergeBase NewMockRepoForTest TestCommitI TestCommitJ = Some (TestCommitF, None)"
    by code_simp
  have n: "TestCommitF \<noteq> []" by (simp add: test_defs)
  from MergeBase_result_is_common_ancestor [OF h n] h n show ?thesis by simp
qed




subsection \<open>ResolveRefCommit\<close>

text \<open>
  \<open>strings_Replace1\<close> rewrites the leftmost occurrence of \<open>old\<close> and nothing else, and
  leaves a string without an occurrence as it is.
\<close>

lemma strings_Replace1_first:
  assumes "old \<noteq> []"
    and "\<forall>pre' post'. pre @ old @ post = pre' @ old @ post' \<longrightarrow> length pre \<le> length pre'"
  shows "strings_Replace1 (pre @ old @ post) old new = pre @ new @ post"
  using assms(2)
proof (induction pre)
  case Nil
  from assms(1) obtain c s where "old @ post = c # s" by (cases old) auto
  moreover have "take (length old) (old @ post) = old" by simp
  ultimately show ?case by (metis append_Nil append_eq_conv_conj strings_Replace1.simps(2))
next
  case (Cons p pre)
  have no: "take (length old) (p # pre @ old @ post) \<noteq> old"
  proof
    assume "take (length old) (p # pre @ old @ post) = old"
    then have "(p # pre) @ old @ post = [] @ old @ drop (length old) (p # pre @ old @ post)"
      by (metis append_Cons append_Nil append_take_drop_id)
    with Cons.prems have "length (p # pre) \<le> length ([] :: string)" by blast
    then show False by simp
  qed
  have "\<forall>pre' post'. pre @ old @ post = pre' @ old @ post' \<longrightarrow> length pre \<le> length pre'"
  proof (intro allI impI)
    fix pre' post' assume "pre @ old @ post = pre' @ old @ post'"
    then have "(p # pre) @ old @ post = (p # pre') @ old @ post'" by simp
    with Cons.prems have "length (p # pre) \<le> length (p # pre')" by blast
    then show "length pre \<le> length pre'" by simp
  qed
  from Cons.IH [OF this] no show ?case by simp
qed

lemma strings_Replace1_absent:
  assumes "old \<noteq> []"
    and "\<forall>pre post. s \<noteq> pre @ old @ post"
  shows "strings_Replace1 s old new = s"
  using assms(2)
proof (induction s)
  case Nil
  with assms(1) show ?case by simp
next
  case (Cons c s)
  have no: "take (length old) (c # s) \<noteq> old"
  proof
    assume "take (length old) (c # s) = old"
    then have "c # s = [] @ old @ drop (length old) (c # s)"
      by (metis append_Nil append_take_drop_id)
    with Cons.prems show False by blast
  qed
  have "\<forall>pre post. s \<noteq> pre @ old @ post"
  proof (intro allI notI)
    fix pre post assume "s = pre @ old @ post"
    then have "c # s = (c # pre) @ old @ post" by simp
    with Cons.prems show False by blast
  qed
  from Cons.IH [OF this] no show ?case by simp
qed

text \<open>
  C5. Let \<open>ref\<close> hold \<open>refs/heads/\<close>, its first occurrence being after \<open>pre\<close> and
  before \<open>name\<close>. \<open>ResolveRefCommit(ref)\<close> looks \<open>ref\<close> up in the ref table, then in
  the commit store; when both miss, it does the same once more for \<open>ref\<close> with that
  occurrence replaced by \<open>refs/remotes/origin/\<close>; when this misses too, the error is the one
  of the second attempt, which names the rewritten ref.
\<close>

theorem ResolveRefCommit_remote_fallback:
  assumes "ref = pre @ ''refs/heads/'' @ name"
    and "\<forall>pre' name'. ref = pre' @ ''refs/heads/'' @ name' \<longrightarrow> length pre \<le> length pre'"
  shows "ResolveRefCommit r ref =
     (case Mapping.lookup (Refs r) ref of
        Some commit \<Rightarrow> (commit, None)
      | None \<Rightarrow>
         if ref \<in> Mapping.keys (Commits r) then (ref, None)
         else (case Mapping.lookup (Refs r) (pre @ ''refs/remotes/origin/'' @ name) of
                 Some commit \<Rightarrow> (commit, None)
               | None \<Rightarrow>
                  if pre @ ''refs/remotes/origin/'' @ name \<in> Mapping.keys (Commits r)
                  then (pre @ ''refs/remotes/origin/'' @ name, None)
                  else ([], Some (RefDoesNotExist (pre @ ''refs/remotes/origin/'' @ name)))))"
proof -
  have "strings_Replace1 (pre @ ''refs/heads/'' @ name) ''refs/heads/'' ''refs/remotes/origin/''
          = pre @ ''refs/remotes/origin/'' @ name"
    using assms by (intro strings_Replace1_first) auto
  then show ?thesis
    using assms(1)
    by (auto simp add: ResolveRefCommit_def resolveLocalRef_def keys_is_none_rep Option.is_none_def
        split: option.splits)
qed

theorem ResolveRefCommit_remote_fallback_witness:
  "ResolveRefCommit
      (NewMockRepoForTest\<lparr>Refs := Mapping.of_alist [(''refs/remotes/origin/master'', TestCommitJ)]\<rparr>)
      ''refs/heads/master'' = (TestCommitJ, None)
   \<and> ResolveRefCommit NewMockRepoForTest ''refs/heads/absent''
       = ([], Some (RefDoesNotExist ''refs/remotes/origin/absent''))"
proof -
  have d1: "''refs/heads/master'' = [] @ ''refs/heads/'' @ ''master''" by simp
  have d2: "''refs/heads/absent'' = [] @ ''refs/heads/'' @ ''absent''" by simp
  have f1: "\<forall>pre' name'. ''refs/heads/master'' = pre' @ ''refs/heads/'' @ name'
              \<longrightarrow> length ([] :: string) \<le> length pre'" by simp
  have f2: "\<forall>pre' name'. ''refs/heads/absent'' = pre' @ ''refs/heads/'' @ name'
              \<longrightarrow> length ([] :: string) \<le> length pre'" by simp
  have a: "ResolveRefCommit
      (NewMockRepoForTest\<lparr>Refs := Mapping.of_alist [(''refs/remotes/origin/master'', TestCommitJ)]\<rparr>)
      ''refs/heads/master'' = (TestCommitJ, None)"
    by (subst ResolveRefCommit_remote_fallback [OF d1 f1])
      (simp add: NewMockRepoForTest_def test_defs lookup_of_alist keys_of_alist)
  have b: "ResolveRefCommit NewMockRepoForTest ''refs/heads/absent''
       = ([], Some (RefDoesNotExist ''refs/remotes/origin/absent''))"
    by (subst ResolveRefCommit_remote_fallback [OF d2 f2])
      (simp add: NewMockRepoForTest_def test_defs lookup_of_alist keys_of_alist)
  from a b show ?thesis by simp
qed

text \<open>A ref without \<open>refs/heads/\<close> is resolved locally, the second attempt being the first again.\<close>

lemma ResolveRefCommit_without_heads:
  assumes "\<forall>pre name. ref \<noteq> pre @ ''refs/heads/'' @ name"
  shows "ResolveRefCommit r ref = resolveLocalRef r ref"
proof -
  have "strings_Replace1 ref ''refs/heads/'' ''refs/remotes/origin/'' = ref"
    using assms by (intro strings_Replace1_absent) auto
  then show ?thesis
    by (cases "resolveLocalRef r ref") (auto simp add: ResolveRefCommit_def split: option.splits)
qed

subsection \<open>GetRepoStateHash\<close>

text \<open>The SHA-1 above on the test vector \<open>abc\<close> of FIPS 180.\<close>

lemma sha1_Sum_abc:
  "fmt_x (sha1_Sum ''abc'') = ''a9993e364706816aba3e25717850c26c9cd0d89d''"
  by code_simp




end
